theory Spec2Isabelle
  imports Main "HOL-Library.Signed_Division" "HOL-Library.Stream"
begin

section \<open>The Snake game: geometry, snake body and game loop\<close>

text \<open>
  The development embeds package \<^verbatim>\<open>game\<close> of the repository (geometry.go, snake.go and
  game.go, which the sources hold concatenated as src/game/geometry.go and
  src/game/game.go). Package \<^verbatim>\<open>modules\<close> is the older copy of the same code: its
  \<^verbatim>\<open>Exec\<close>, \<^verbatim>\<open>CheckParallel\<close>, \<^verbatim>\<open>Add\<close>, \<^verbatim>\<open>IsSnake\<close>, \<^verbatim>\<open>CutIfSnake\<close>, \<^verbatim>\<open>Head\<close>, \<^verbatim>\<open>Tail\<close>
  and \<^verbatim>\<open>Move\<close> are the same text.

  Modelling decisions.
  \<^item> \<^verbatim>\<open>Point{X, Y float64}\<close>: the coordinates are \<open>int\<close>. Every coordinate the game
    computes is an integer between -1 and 20 (a draw of \<^verbatim>\<open>rand.Intn(20)\<close>, the literals of
    \<^verbatim>\<open>Reset\<close>, and steps of one from those), where float64 arithmetic and comparison are
    exact.
  \<^item> Go's \<^verbatim>\<open>int\<close> (score, speed, Size, \<^verbatim>\<open>Dir\<close>) is \<open>int\<close>, unbounded: the values stay
    within a few ten thousands. Go's \<^verbatim>\<open>/\<close> truncates towards zero (\<open>sdiv\<close>) and
    panics on a zero divisor.
  \<^item> A panic (index out of range, division by zero) is an \<open>error\<close> value.
  \<^item> The random source is a stream of raw draws, passed in and returned.
  \<^item> Canvas, window, fonts and the drawing geometry of \<^verbatim>\<open>Game\<close> play no part in the
    simulation and are left out of the record.
\<close>

subsection \<open>geometry.go\<close>

record Point =
  X :: int
  Y :: int

definition cellsCount :: int where
  "cellsCount = 20"

definition startSpeed :: int where
  "startSpeed = 300"

definition IsCorner :: "Point \<Rightarrow> bool" where
  "IsCorner p \<longleftrightarrow>
     X p = 0 \<and> Y p = 0 \<or> X p = 0 \<and> Y p = cellsCount - 1 \<or>
     X p = cellsCount - 1 \<and> Y p = 0 \<or> X p = cellsCount - 1 \<and> Y p = cellsCount - 1"

definition IsEdge :: "Point \<Rightarrow> bool" where
  "IsEdge p \<longleftrightarrow> X p = 0 \<or> Y p = 0 \<or> X p = cellsCount - 1 \<or> Y p = cellsCount - 1"

text \<open>\<^verbatim>\<open>type Dir int\<close> with the constants \<^verbatim>\<open>up = iota; right; down; left\<close>.\<close>

type_synonym Dir = int

definition up :: Dir where
  "up = 0"

definition right :: Dir where
  "right = 1"

definition down :: Dir where
  "down = 2"

definition left :: Dir where
  "left = 3"

definition Exec :: "Dir \<Rightarrow> Point \<Rightarrow> Point" where
  "Exec d point =
     (if d = up then \<lparr>X = X point, Y = Y point + 1\<rparr>
      else if d = down then \<lparr>X = X point, Y = Y point - 1\<rparr>
      else if d = left then \<lparr>X = X point - 1, Y = Y point\<rparr>
      else if d = right then \<lparr>X = X point + 1, Y = Y point\<rparr>
      else point)"

text \<open>The receiver of \<^verbatim>\<open>FromKey\<close> is not used by its body.\<close>

definition FromKey :: "Dir \<Rightarrow> int \<Rightarrow> Dir" where
  "FromKey d ceyKode =
     (if ceyKode = 80 then left
      else if ceyKode = 82 then down
      else if ceyKode = 79 then right
      else if ceyKode = 81 then up
      else right)"

definition CheckParallel :: "Dir \<Rightarrow> Dir \<Rightarrow> bool" where
  "CheckParallel d newDir =
     (if d = up then newDir = down
      else if d = right then newDir = left
      else if d = down then newDir = up
      else if d = left then newDir = right
      else False)"

subsection \<open>snake.go\<close>

datatype error = IndexOutOfRange | DivideByZero

record Snake =
  Direction :: Dir
  Parts :: "Point list"
  Size :: int

text \<open>\<^verbatim>\<open>&Snake{}\<close>: every field has its zero value.\<close>

definition NewSnake :: Snake where
  "NewSnake = \<lparr>Direction = 0, Parts = [], Size = 0\<rparr>"

definition Len :: "Snake \<Rightarrow> int" where
  "Len s = int (length (Parts s))"

definition Add :: "Snake \<Rightarrow> Point \<Rightarrow> Snake" where
  "Add s point = s\<lparr>Parts := [point] @ Parts s\<rparr>"

definition IsSnake :: "Snake \<Rightarrow> Point \<Rightarrow> bool" where
  "IsSnake s point \<longleftrightarrow> point \<in> set (Parts s)"

text \<open>
  The loop of \<^verbatim>\<open>CutIfSnake\<close>, from index \<open>i\<close> on; the result is the snake and the
  returned flag.
\<close>

function CutIfSnake_loop :: "Snake \<Rightarrow> Point \<Rightarrow> nat \<Rightarrow> Snake \<times> bool" where
  "CutIfSnake_loop s point i =
     (if i < length (Parts s) then
        (if Parts s ! i = point then (s\<lparr>Parts := take i (Parts s)\<rparr>, True)
         else CutIfSnake_loop s point (i + 1))
      else (s, False))"
  by pat_completeness auto
termination
  by (relation "measure (\<lambda>(s, point, i). length (Parts s) - i)") auto

definition CutIfSnake :: "Snake \<Rightarrow> Point \<Rightarrow> Snake \<times> bool" where
  "CutIfSnake s point = CutIfSnake_loop s point 0"

definition Head :: "Snake \<Rightarrow> Point" where
  "Head s = (if length (Parts s) = 0 then \<lparr>X = - 1, Y = - 1\<rparr> else Parts s ! 0)"

definition Tail :: "Snake \<Rightarrow> Point" where
  "Tail s =
     (if length (Parts s) = 0 then \<lparr>X = - 1, Y = - 1\<rparr>
      else Parts s ! (length (Parts s) - 1))"

text \<open>The loop of \<^verbatim>\<open>Reset\<close>: \<^verbatim>\<open>for i := length - 1; i >= 0; i--\<close>.\<close>

function Reset_loop :: "int \<Rightarrow> int \<Rightarrow> int \<Rightarrow> Snake \<Rightarrow> Snake" where
  "Reset_loop x y i s =
     (if i \<ge> 0 then
        Reset_loop x y (i - 1)
          (s\<lparr>Parts := Parts s @ [\<lparr>X = x + i, Y = y\<rparr>], Size := Size s + 1\<rparr>)
      else s)"
  by pat_completeness auto
termination
  by (relation "measure (\<lambda>(x, y, i, s). nat (i + 1))") auto

definition Reset :: "Snake \<Rightarrow> Snake" where
  "Reset s = Reset_loop 1 1 (3 - 1) (s\<lparr>Parts := [], Direction := right\<rparr>)"

text \<open>
  The loop of \<^verbatim>\<open>Move\<close>: \<^verbatim>\<open>for i := range s.Parts[1:]\<close> runs \<open>i\<close> over the \<open>n\<close>
  indices of the tail slice, whose length is fixed when the loop starts.
\<close>

function Move_loop :: "Point list \<Rightarrow> Point \<Rightarrow> nat \<Rightarrow> nat \<Rightarrow> Point list" where
  "Move_loop parts lastPoint i n =
     (if i < n then Move_loop (parts[i + 1 := lastPoint]) (parts ! (i + 1)) (i + 1) n
      else parts)"
  by pat_completeness auto
termination
  by (relation "measure (\<lambda>(parts, lastPoint, i, n). n - i)") auto

text \<open>\<^verbatim>\<open>s.Parts[0]\<close> panics on an empty body.\<close>

definition Move :: "Snake \<Rightarrow> Dir \<Rightarrow> error + Snake" where
  "Move s directional =
     (if Parts s = [] then Inl IndexOutOfRange
      else
        let lastPoint = Parts s ! 0;
            parts = (Parts s)[0 := Exec directional (Parts s ! 0)]
        in Inr (s\<lparr>Parts := Move_loop parts lastPoint 0 (length (Parts s) - 1)\<rparr>))"

subsection \<open>game.go\<close>

record Game =
  speed :: int
  snake :: Snake
  food :: Point
  score :: int
  ateFood :: int
  gameOver :: bool
  needMove :: bool
  needUpdateInfo :: bool

text \<open>
  The state \<^verbatim>\<open>RunGame\<close> builds: \<^verbatim>\<open>NewSnake\<close> and \<^verbatim>\<open>Reset\<close>, the speed of
  \<^verbatim>\<open>NewGameParam\<close>, every other field of \<^verbatim>\<open>NewGame\<close> at its zero value.
\<close>

definition NewGame :: Game where
  "NewGame =
     \<lparr>speed = startSpeed, snake = Reset NewSnake, food = \<lparr>X = 0, Y = 0\<rparr>, score = 0,
      ateFood = 0, gameOver = False, needMove = False, needUpdateInfo = False\<rparr>"

text \<open>
  \<^verbatim>\<open>rand.Intn(n)\<close> of Go's math/rand returns a number in \<open>[0, n)\<close>: the next raw draw
  of the stream, reduced modulo \<open>n\<close>. It panics for \<open>n \<le> 0\<close>; every call here has
  \<open>n = 20\<close>.
\<close>

definition Intn :: "nat stream \<Rightarrow> int \<Rightarrow> int \<times> nat stream" where
  "Intn rnd n = (int (shd rnd) mod n, stl rnd)"

text \<open>
  \<^verbatim>\<open>foodGeneration\<close> loops until a draw misses the snake, with no bound: the value
  \<open>None\<close> stands for a loop that never returns.
\<close>

partial_function (option) foodGeneration :: "nat stream \<Rightarrow> Game \<Rightarrow> (Game \<times> nat stream) option"
  where
  "foodGeneration rnd g =
     (let randX = fst (Intn rnd cellsCount);
          rnd1 = snd (Intn rnd cellsCount);
          randY = fst (Intn rnd1 cellsCount);
          rnd2 = snd (Intn rnd1 cellsCount);
          newPoint = \<lparr>X = randX, Y = randY\<rparr>
      in if IsSnake (snake g) newPoint then foodGeneration rnd2 g
         else Some (g\<lparr>food := newPoint\<rparr>, rnd2))"

text \<open>Go's integer division: a panic on a zero divisor, truncation otherwise.\<close>

definition quo :: "int \<Rightarrow> int \<Rightarrow> error + int" where
  "quo a b = (if b = 0 then Inl DivideByZero else Inr (a sdiv b))"

definition calculateScore :: "Game \<Rightarrow> Point \<Rightarrow> error + int" where
  "calculateScore g pos =
     (if IsCorner pos then map_sum id (\<lambda>q. q * 4) (quo 1000 (speed g))
      else if IsEdge pos then map_sum id (\<lambda>q. q * 2) (quo 1000 (speed g))
      else quo 1000 (speed g))"

definition collidesWithWall :: "Point \<Rightarrow> bool" where
  "collidesWithWall newPos \<longleftrightarrow>
     X newPos < 0 \<or> X newPos \<ge> cellsCount \<or> Y newPos < 0 \<or> Y newPos \<ge> cellsCount"

text \<open>
  One iteration of the loop of \<^verbatim>\<open>handleGameLogic\<close>, in its three parts. First the cut
  (\<^verbatim>\<open>if g.snake.CutIfSnake(newPos) { ... }\<close>): the score is divided by the size counter
  and multiplied by the new length.
\<close>

definition cutStep :: "Game \<Rightarrow> Point \<Rightarrow> error + Game" where
  "cutStep g newPos =
     (case CutIfSnake (snake g) newPos of
        (s, True) \<Rightarrow>
          (let newSize = int (length (Parts s)) in
           case quo (score g) (Size s) of
             Inl e \<Rightarrow> Inl e
           | Inr q \<Rightarrow>
               Inr (g\<lparr>snake := s\<lparr>Size := newSize\<rparr>, score := q * newSize,
                      needUpdateInfo := True\<rparr>))
      | (s, False) \<Rightarrow> Inr g)"

text \<open>The branch \<^verbatim>\<open>if newPos == g.food { ... }\<close>.\<close>

definition eatStep :: "nat stream \<Rightarrow> Game \<Rightarrow> Point \<Rightarrow> (error + Game \<times> nat stream) option" where
  "eatStep rnd g newPos =
     (case foodGeneration rnd (g\<lparr>snake := Add (snake g) newPos\<rparr>) of
        None \<Rightarrow> None
      | Some (g1, rnd') \<Rightarrow>
          (let g2 = g1\<lparr>ateFood := ateFood g1 + 1\<rparr>;
               g3 = g2\<lparr>snake := (snake g2)\<lparr>Size := Size (snake g2) + 1\<rparr>\<rparr>;
               g4 = g3\<lparr>speed := speed g3 - 5\<rparr>
           in case calculateScore g4 newPos of
                Inl e \<Rightarrow> Some (Inl e)
              | Inr sc \<Rightarrow> Some (Inr (g4\<lparr>score := score g4 + sc, needUpdateInfo := True\<rparr>, rnd'))))"

text \<open>The branch \<^verbatim>\<open>else if !g.gameOver { ... }\<close>.\<close>

definition moveStep :: "Game \<Rightarrow> error + Game" where
  "moveStep g =
     (if \<not> gameOver g then
        (case Move (snake g) (Direction (snake g)) of
           Inl e \<Rightarrow> Inl e
         | Inr s \<Rightarrow> Inr (g\<lparr>snake := s, needMove := True\<rparr>))
      else Inr g)"

text \<open>
  The whole iteration. \<^verbatim>\<open>g.snake.Parts[0]\<close> is read with no guard and panics on an
  empty body.
\<close>

definition tick :: "nat stream \<Rightarrow> Game \<Rightarrow> (error + Game \<times> nat stream) option" where
  "tick rnd g =
     (if Parts (snake g) = [] then Some (Inl IndexOutOfRange)
      else
        let newPos = Exec (Direction (snake g)) (Parts (snake g) ! 0);
            g1 = (if collidesWithWall newPos then g\<lparr>gameOver := True\<rparr> else g)
        in case cutStep g1 newPos of
             Inl e \<Rightarrow> Some (Inl e)
           | Inr g2 \<Rightarrow>
               if newPos = food g2 then eatStep rnd g2 newPos
               else (case moveStep g2 of
                       Inl e \<Rightarrow> Some (Inl e)
                     | Inr g3 \<Rightarrow> Some (Inr (g3, rnd))))"

definition restartGame :: "Game \<Rightarrow> Game" where
  "restartGame g =
     g\<lparr>snake := Reset (snake g), score := 0, ateFood := 0, speed := 300, gameOver := False\<rparr>"

text \<open>
  The handler \<^verbatim>\<open>processInput\<close> installs for a released key, with the key's code and
  name. \<open>None\<close>: the Escape key has ended the process (\<^verbatim>\<open>os.Exit\<close>).
\<close>

definition KeyUp :: "int \<Rightarrow> string \<Rightarrow> Game \<Rightarrow> Game option" where
  "KeyUp code name g =
     (if gameOver g \<and> name = ''Enter'' then Some ((restartGame g)\<lparr>gameOver := False\<rparr>)
      else if gameOver g \<and> name = ''Escape'' then None
      else if 79 \<le> code \<and> code \<le> 82 \<and> needMove g then
        (let newDir = FromKey (Direction (snake g)) code in
         if \<not> CheckParallel (Direction (snake g)) newDir then
           Some (g\<lparr>snake := (snake g)\<lparr>Direction := newDir\<rparr>, needMove := False\<rparr>)
         else Some g)
      else Some g)"

subsection \<open>modules/game.go\<close>

text \<open>
  \<^verbatim>\<open>FoodGeneration\<close> of the older package draws only while the game is not over; with
  \<^verbatim>\<open>gameOver\<close> set the loop spins, and nothing in a sequential run clears the flag.
\<close>

partial_function (option) modules_FoodGeneration ::
  "nat stream \<Rightarrow> Game \<Rightarrow> (Game \<times> nat stream) option"
  where
  "modules_FoodGeneration rnd g =
     (let minNum = 0; maxNum = 20 in
      if \<not> gameOver g then
        (let randX = fst (Intn rnd (maxNum - minNum)) + minNum;
             rnd1 = snd (Intn rnd (maxNum - minNum));
             randY = fst (Intn rnd1 (maxNum - minNum)) + minNum;
             rnd2 = snd (Intn rnd1 (maxNum - minNum));
             newPoint = \<lparr>X = randX, Y = randY\<rparr>;
             check = (if IsSnake (snake g) newPoint then False else True)
         in if check then Some (g\<lparr>food := newPoint\<rparr>, rnd2)
            else modules_FoodGeneration rnd2 g)
      else modules_FoodGeneration rnd g)"

subsection \<open>Runs of the program\<close>

text \<open>
  Package game takes no lock. The loop of \<^verbatim>\<open>handleGameLogic\<close> runs in a goroutine of its
  own and goes on iterating while the game is over; \<^verbatim>\<open>run\<close> calls \<^verbatim>\<open>foodGeneration\<close>
  and then \<^verbatim>\<open>renderLoop\<close> on the main goroutine, where the window calls the key handler.
  So the loop can run between any two statements of the handler.

  The Enter branch of the handler, statement by statement: \<^verbatim>\<open>restartGame\<close> calls
  \<^verbatim>\<open>Reset\<close> (the empty slice, the direction, three rounds of \<^verbatim>\<open>append\<close> and
  \<^verbatim>\<open>Size++\<close>), sets score, food count, speed and \<^verbatim>\<open>gameOver\<close>, and the handler sets
  \<^verbatim>\<open>gameOver\<close> once more.
\<close>

definition restartStmt :: "nat \<Rightarrow> Game \<Rightarrow> Game" where
  "restartStmt k g =
     (if k = 0 then g\<lparr>snake := (snake g)\<lparr>Parts := []\<rparr>\<rparr>
      else if k = 1 then g\<lparr>snake := (snake g)\<lparr>Direction := right\<rparr>\<rparr>
      else if k = 2 then g\<lparr>snake := (snake g)\<lparr>Parts := Parts (snake g) @ [\<lparr>X = 1 + 2, Y = 1\<rparr>]\<rparr>\<rparr>
      else if k = 3 then g\<lparr>snake := (snake g)\<lparr>Size := Size (snake g) + 1\<rparr>\<rparr>
      else if k = 4 then g\<lparr>snake := (snake g)\<lparr>Parts := Parts (snake g) @ [\<lparr>X = 1 + 1, Y = 1\<rparr>]\<rparr>\<rparr>
      else if k = 5 then g\<lparr>snake := (snake g)\<lparr>Size := Size (snake g) + 1\<rparr>\<rparr>
      else if k = 6 then g\<lparr>snake := (snake g)\<lparr>Parts := Parts (snake g) @ [\<lparr>X = 1 + 0, Y = 1\<rparr>]\<rparr>\<rparr>
      else if k = 7 then g\<lparr>snake := (snake g)\<lparr>Size := Size (snake g) + 1\<rparr>\<rparr>
      else if k = 8 then g\<lparr>score := 0\<rparr>
      else if k = 9 then g\<lparr>ateFood := 0\<rparr>
      else if k = 10 then g\<lparr>speed := 300\<rparr>
      else if k = 11 then g\<lparr>gameOver := False\<rparr>
      else g\<lparr>gameOver := False\<rparr>)"

text \<open>
  Where the main goroutine stands: before its call of \<^verbatim>\<open>foodGeneration\<close> has returned,
  between two events, or in the Enter branch with its first \<open>k\<close> statements done.
\<close>

datatype handler = Starting | Idle | Restart nat

text \<open>
  States of runs. The loop may iterate wherever the main goroutine stands, and the Enter
  branch advances one statement at a time. An iteration, a call of \<^verbatim>\<open>foodGeneration\<close>
  and the other branches of the handler are taken whole, so these are the schedules that
  do not interrupt them: every state listed here is a state of the program, and the list
  serves to show that a state occurs, not that something never does. An iteration that
  panics ends the run.
\<close>

inductive running :: "handler \<Rightarrow> Game \<Rightarrow> bool" where
  start: "running Starting NewGame"
| generated: "running Starting g \<Longrightarrow> foodGeneration rnd g = Some (g', rnd') \<Longrightarrow> running Idle g'"
| ticked: "running h g \<Longrightarrow> tick rnd g = Some (Inr (g', rnd')) \<Longrightarrow> running h g'"
| key: "running Idle g \<Longrightarrow> \<not> (gameOver g \<and> name = ''Enter'') \<Longrightarrow>
         KeyUp code name g = Some g' \<Longrightarrow> running Idle g'"
| enter: "running Idle g \<Longrightarrow> gameOver g \<Longrightarrow> running (Restart 0) g"
| stmt: "running (Restart k) g \<Longrightarrow> k < 13 \<Longrightarrow> running (Restart (k + 1)) (restartStmt k g)"
| finished: "running (Restart 13) g \<Longrightarrow> running Idle g"
| rendered: "running Idle g \<Longrightarrow> running Idle (g\<lparr>needUpdateInfo := False\<rparr>)"

definition reachable :: "Game \<Rightarrow> bool" where
  "reachable g \<longleftrightarrow> (\<exists>h. running h g)"

subsection \<open>Example states\<close>

text \<open>
  A snake of five cells whose head, moving left, enters the cell of its own fourth
  segment (index 3): the body turns through a two-by-two block.
\<close>

definition loopSnake :: Snake where
  "loopSnake =
     \<lparr>Direction = left,
      Parts = [\<lparr>X = 2, Y = 2\<rparr>, \<lparr>X = 2, Y = 1\<rparr>, \<lparr>X = 1, Y = 1\<rparr>, \<lparr>X = 1, Y = 2\<rparr>, \<lparr>X = 1, Y = 3\<rparr>],
      Size = 5\<rparr>"

text \<open>The first snake about to step over the right wall.\<close>

definition wallGame :: Game where
  "wallGame =
     \<lparr>speed = 300,
      snake = \<lparr>Direction = right, Parts = [\<lparr>X = 19, Y = 1\<rparr>, \<lparr>X = 18, Y = 1\<rparr>, \<lparr>X = 17, Y = 1\<rparr>],
               Size = 3\<rparr>,
      food = \<lparr>X = 0, Y = 0\<rparr>, score = 0, ateFood = 0, gameOver = False, needMove = True,
      needUpdateInfo = False\<rparr>"

text \<open>
  A game with the looping snake, two foods eaten (score 9: one on an edge), and the state
  one iteration later.
\<close>

definition loopGame :: Game where
  "loopGame =
     \<lparr>speed = 290, snake = loopSnake, food = \<lparr>X = 5, Y = 5\<rparr>, score = 9, ateFood = 2,
      gameOver = False, needMove = True, needUpdateInfo = False\<rparr>"

definition loopGame_after :: Game where
  "loopGame_after =
     \<lparr>speed = 290,
      snake = \<lparr>Direction = left, Parts = [\<lparr>X = 1, Y = 2\<rparr>, \<lparr>X = 2, Y = 2\<rparr>, \<lparr>X = 2, Y = 1\<rparr>],
               Size = 3\<rparr>,
      food = \<lparr>X = 5, Y = 5\<rparr>, score = 3, ateFood = 2, gameOver = False, needMove = True,
      needUpdateInfo = True\<rparr>"

text \<open>
  The scenario of a five-cell snake whose prospective head is its third cell (index 2),
  and the state one iteration later. The body as listed is not connected.
\<close>

definition biteGame :: Game where
  "biteGame =
     \<lparr>speed = 290,
      snake = \<lparr>Direction = right,
               Parts = [\<lparr>X = 2, Y = 1\<rparr>, \<lparr>X = 1, Y = 1\<rparr>, \<lparr>X = 3, Y = 1\<rparr>, \<lparr>X = 4, Y = 1\<rparr>, \<lparr>X = 5, Y = 1\<rparr>],
               Size = 5\<rparr>,
      food = \<lparr>X = 7, Y = 7\<rparr>, score = 9, ateFood = 2, gameOver = False, needMove = True,
      needUpdateInfo = False\<rparr>"

definition biteGame_after :: Game where
  "biteGame_after =
     \<lparr>speed = 290,
      snake = \<lparr>Direction = right, Parts = [\<lparr>X = 3, Y = 1\<rparr>, \<lparr>X = 2, Y = 1\<rparr>], Size = 2\<rparr>,
      food = \<lparr>X = 7, Y = 7\<rparr>, score = 2, ateFood = 2, gameOver = False, needMove = True,
      needUpdateInfo = True\<rparr>"

text \<open>
  Nine foods eaten, all in the interior: speed \<open>300 - 9 * 5\<close>, twelve cells, score
  \<open>9 * 3\<close>; the next food lies ahead. Then the state one iteration later, when the
  draws put the new food at \<open>(0, 0)\<close>.
\<close>

definition rowGame :: Game where
  "rowGame =
     \<lparr>speed = 255,
      snake = \<lparr>Direction = right,
               Parts = [\<lparr>X = 12, Y = 1\<rparr>, \<lparr>X = 11, Y = 1\<rparr>, \<lparr>X = 10, Y = 1\<rparr>, \<lparr>X = 9, Y = 1\<rparr>,
                        \<lparr>X = 8, Y = 1\<rparr>, \<lparr>X = 7, Y = 1\<rparr>, \<lparr>X = 6, Y = 1\<rparr>, \<lparr>X = 5, Y = 1\<rparr>,
                        \<lparr>X = 4, Y = 1\<rparr>, \<lparr>X = 3, Y = 1\<rparr>, \<lparr>X = 2, Y = 1\<rparr>, \<lparr>X = 1, Y = 1\<rparr>],
               Size = 12\<rparr>,
      food = \<lparr>X = 13, Y = 1\<rparr>, score = 27, ateFood = 9, gameOver = False, needMove = True,
      needUpdateInfo = False\<rparr>"

definition rowGame_after :: Game where
  "rowGame_after =
     \<lparr>speed = 250,
      snake = \<lparr>Direction = right,
               Parts = [\<lparr>X = 13, Y = 1\<rparr>, \<lparr>X = 12, Y = 1\<rparr>, \<lparr>X = 11, Y = 1\<rparr>, \<lparr>X = 10, Y = 1\<rparr>,
                        \<lparr>X = 9, Y = 1\<rparr>, \<lparr>X = 8, Y = 1\<rparr>, \<lparr>X = 7, Y = 1\<rparr>, \<lparr>X = 6, Y = 1\<rparr>,
                        \<lparr>X = 5, Y = 1\<rparr>, \<lparr>X = 4, Y = 1\<rparr>, \<lparr>X = 3, Y = 1\<rparr>, \<lparr>X = 2, Y = 1\<rparr>,
                        \<lparr>X = 1, Y = 1\<rparr>],
               Size = 13\<rparr>,
      food = \<lparr>X = 0, Y = 0\<rparr>, score = 31, ateFood = 10, gameOver = False, needMove = True,
      needUpdateInfo = True\<rparr>"

text \<open>
  A fresh snake on the bottom row with the food ahead on the edge, and with the food ahead
  in the corner; then the states one iteration later, when the draws put the new food at
  \<open>(5, 5)\<close>.
\<close>

definition edgeGame :: Game where
  "edgeGame =
     \<lparr>speed = 300,
      snake = \<lparr>Direction = right, Parts = [\<lparr>X = 3, Y = 0\<rparr>, \<lparr>X = 2, Y = 0\<rparr>, \<lparr>X = 1, Y = 0\<rparr>],
               Size = 3\<rparr>,
      food = \<lparr>X = 4, Y = 0\<rparr>, score = 0, ateFood = 0, gameOver = False, needMove = True,
      needUpdateInfo = False\<rparr>"

definition edgeGame_after :: Game where
  "edgeGame_after =
     \<lparr>speed = 295,
      snake = \<lparr>Direction = right,
               Parts = [\<lparr>X = 4, Y = 0\<rparr>, \<lparr>X = 3, Y = 0\<rparr>, \<lparr>X = 2, Y = 0\<rparr>, \<lparr>X = 1, Y = 0\<rparr>],
               Size = 4\<rparr>,
      food = \<lparr>X = 5, Y = 5\<rparr>, score = 6, ateFood = 1, gameOver = False, needMove = True,
      needUpdateInfo = True\<rparr>"

definition cornerGame :: Game where
  "cornerGame =
     \<lparr>speed = 300,
      snake = \<lparr>Direction = left, Parts = [\<lparr>X = 1, Y = 0\<rparr>, \<lparr>X = 2, Y = 0\<rparr>, \<lparr>X = 3, Y = 0\<rparr>],
               Size = 3\<rparr>,
      food = \<lparr>X = 0, Y = 0\<rparr>, score = 0, ateFood = 0, gameOver = False, needMove = True,
      needUpdateInfo = False\<rparr>"

definition cornerGame_after :: Game where
  "cornerGame_after =
     \<lparr>speed = 295,
      snake = \<lparr>Direction = left,
               Parts = [\<lparr>X = 0, Y = 0\<rparr>, \<lparr>X = 1, Y = 0\<rparr>, \<lparr>X = 2, Y = 0\<rparr>, \<lparr>X = 3, Y = 0\<rparr>],
               Size = 4\<rparr>,
      food = \<lparr>X = 5, Y = 5\<rparr>, score = 12, ateFood = 1, gameOver = False, needMove = True,
      needUpdateInfo = True\<rparr>"

text \<open>The first snake on its way to the right wall, head at \<open>(x, 1)\<close>, no key pressed.\<close>

definition startRow :: "int \<Rightarrow> Game" where
  "startRow x =
     \<lparr>speed = 300,
      snake = \<lparr>Direction = right, Parts = [\<lparr>X = x, Y = 1\<rparr>, \<lparr>X = x - 1, Y = 1\<rparr>, \<lparr>X = x - 2, Y = 1\<rparr>],
               Size = 3\<rparr>,
      food = \<lparr>X = 0, Y = 0\<rparr>, score = 0, ateFood = 0, gameOver = False, needMove = True,
      needUpdateInfo = False\<rparr>"

section \<open>Properties\<close>

subsection \<open>The loops in closed form\<close>

lemmas dir_defs = up_def right_def down_def left_def

lemma CutIfSnake_loop_eq:
  "i \<le> length (Parts s) \<Longrightarrow> \<forall>j<i. Parts s ! j \<noteq> p \<Longrightarrow>
   CutIfSnake_loop s p i =
     (if p \<in> set (Parts s) then (s\<lparr>Parts := takeWhile (\<lambda>q. q \<noteq> p) (Parts s)\<rparr>, True)
      else (s, False))"
proof (induction s p i rule: CutIfSnake_loop.induct)
  case (1 s point i)
  show ?case
  proof (cases "i < length (Parts s)")
    case False
    with "1.prems" have "point \<notin> set (Parts s)"
      by (auto simp: in_set_conv_nth)
    with False show ?thesis by simp
  next
    case True
    show ?thesis
    proof (cases "Parts s ! i = point")
      case hit: True
      have "takeWhile (\<lambda>q. q \<noteq> point) (Parts s) = take i (Parts s)"
        using "1.prems" hit True by (intro takeWhile_eq_take_P_nth) auto
      moreover have "point \<in> set (Parts s)"
        using hit True by (auto simp: in_set_conv_nth)
      ultimately show ?thesis using True hit by simp
    next
      case miss: False
      have "\<forall>j<i + 1. Parts s ! j \<noteq> point"
        using "1.prems" miss by (auto simp: less_Suc_eq)
      with "1.IH" [OF True miss] True miss show ?thesis by simp
    qed
  qed
qed

lemma CutIfSnake_eq:
  "CutIfSnake s p =
     (if p \<in> set (Parts s) then (s\<lparr>Parts := takeWhile (\<lambda>q. q \<noteq> p) (Parts s)\<rparr>, True)
      else (s, False))"
  unfolding CutIfSnake_def by (rule CutIfSnake_loop_eq) simp_all

lemma Move_loop_eq:
  "i + 1 + length ys = length parts \<Longrightarrow> n = length parts - 1 \<Longrightarrow>
   parts = pre @ ys \<Longrightarrow> length pre = i + 1 \<Longrightarrow>
   Move_loop parts lastPoint i n = pre @ butlast (lastPoint # ys)"
proof (induction parts lastPoint i n arbitrary: pre ys rule: Move_loop.induct)
  case (1 parts lastPoint i n)
  show ?case
  proof (cases ys)
    case Nil
    with "1.prems" show ?thesis by simp
  next
    case (Cons y ys')
    with "1.prems" have lt: "i < n" by simp
    have upd: "parts[i + 1 := lastPoint] = (pre @ [lastPoint]) @ ys'"
      using "1.prems" Cons by (simp add: list_update_append)
    have nth: "parts ! (i + 1) = y"
      using "1.prems" Cons by (simp add: nth_append)
    have "Move_loop (parts[i + 1 := lastPoint]) (parts ! (i + 1)) (i + 1) n
            = (pre @ [lastPoint]) @ butlast (parts ! (i + 1) # ys')"
      using "1.prems" Cons by (intro "1.IH" [OF lt]) (simp_all add: list_update_append)
    with lt nth Cons show ?thesis by simp
  qed
qed

lemma Move_eq:
  "Parts s \<noteq> [] \<Longrightarrow>
   Move s d = Inr (s\<lparr>Parts := Exec d (hd (Parts s)) # butlast (Parts s)\<rparr>)"
proof -
  assume ne: "Parts s \<noteq> []"
  then obtain h t where ht: "Parts s = h # t" by (cases "Parts s") auto
  have "Move_loop (Exec d h # t) h 0 (length t) = [Exec d h] @ butlast (h # t)"
    by (rule Move_loop_eq) simp_all
  with ht show ?thesis by (simp add: Move_def)
qed

lemma Reset_eq:
  "Reset s = \<lparr>Direction = right, Parts = [\<lparr>X = 3, Y = 1\<rparr>, \<lparr>X = 2, Y = 1\<rparr>, \<lparr>X = 1, Y = 1\<rparr>],
              Size = Size s + 3\<rparr>"
  by (simp add: Reset_def)

subsection \<open>Food generation\<close>

lemma foodGeneration_sound_aux:
  assumes "foodGeneration rnd0 g0 = Some y0"
  shows "\<exists>p. fst y0 = g0\<lparr>food := p\<rparr> \<and> \<not> IsSnake (snake g0) p \<and>
       0 \<le> X p \<and> X p < cellsCount \<and> 0 \<le> Y p \<and> Y p < cellsCount"
proof (rule foodGeneration.raw_induct [OF _ assms])
  fix f :: "nat stream \<Rightarrow> Game \<Rightarrow> (Game \<times> nat stream) option"
  fix rnd g y
  assume IH: "\<And>rnd g y. f rnd g = Some y \<Longrightarrow>
      \<exists>p. fst y = g\<lparr>food := p\<rparr> \<and> \<not> IsSnake (snake g) p \<and>
          0 \<le> X p \<and> X p < cellsCount \<and> 0 \<le> Y p \<and> Y p < cellsCount"
  assume body: "(let randX = fst (Intn rnd cellsCount);
          rnd1 = snd (Intn rnd cellsCount);
          randY = fst (Intn rnd1 cellsCount);
          rnd2 = snd (Intn rnd1 cellsCount);
          newPoint = \<lparr>X = randX, Y = randY\<rparr>
      in if IsSnake (snake g) newPoint then f rnd2 g
         else Some (g\<lparr>food := newPoint\<rparr>, rnd2)) = Some y"
  show "\<exists>p. fst y = g\<lparr>food := p\<rparr> \<and> \<not> IsSnake (snake g) p \<and>
          0 \<le> X p \<and> X p < cellsCount \<and> 0 \<le> Y p \<and> Y p < cellsCount"
  proof (cases "IsSnake (snake g)
      \<lparr>X = int (shd rnd) mod cellsCount, Y = int (shd (stl rnd)) mod cellsCount\<rparr>")
    case True
    with body have "f (stl (stl rnd)) g = Some y"
      by (simp add: Let_def Intn_def)
    then show ?thesis by (rule IH)
  next
    case False
    with body have "y = (g\<lparr>food := \<lparr>X = int (shd rnd) mod cellsCount,
        Y = int (shd (stl rnd)) mod cellsCount\<rparr>\<rparr>, stl (stl rnd))"
      by (simp add: Let_def Intn_def)
    with False show ?thesis
      by (auto simp: cellsCount_def)
  qed
qed

lemma foodGeneration_sound:
  assumes "foodGeneration rnd g = Some (g', rnd')"
  shows "\<exists>p. g' = g\<lparr>food := p\<rparr> \<and> \<not> IsSnake (snake g) p \<and>
             0 \<le> X p \<and> X p < cellsCount \<and> 0 \<le> Y p \<and> Y p < cellsCount"
  using foodGeneration_sound_aux [OF assms] by simp

lemma foodGeneration_returns:
  "\<not> IsSnake (snake g)
       \<lparr>X = int (shd (sdrop (2 * k) rnd)) mod cellsCount,
        Y = int (shd (stl (sdrop (2 * k) rnd))) mod cellsCount\<rparr> \<Longrightarrow>
   \<exists>r. foodGeneration rnd g = Some r"
proof (induction k arbitrary: rnd)
  case 0
  then show ?case
    by (subst foodGeneration.simps) (simp add: Let_def Intn_def)
next
  case (Suc k)
  have "\<exists>r. foodGeneration (stl (stl rnd)) g = Some r"
    using Suc.prems by (intro Suc.IH) simp
  then show ?case
    by (subst foodGeneration.simps) (simp add: Let_def Intn_def)
qed

lemma modules_FoodGeneration_sound:
  assumes "modules_FoodGeneration rnd0 g0 = Some y0"
  shows "\<exists>p. fst y0 = g0\<lparr>food := p\<rparr> \<and> \<not> IsSnake (snake g0) p \<and>
       0 \<le> X p \<and> X p < cellsCount \<and> 0 \<le> Y p \<and> Y p < cellsCount"
proof (rule modules_FoodGeneration.raw_induct [OF _ assms])
  fix f :: "nat stream \<Rightarrow> Game \<Rightarrow> (Game \<times> nat stream) option"
  fix rnd g y
  assume IH: "\<And>rnd g y. f rnd g = Some y \<Longrightarrow>
      \<exists>p. fst y = g\<lparr>food := p\<rparr> \<and> \<not> IsSnake (snake g) p \<and>
          0 \<le> X p \<and> X p < cellsCount \<and> 0 \<le> Y p \<and> Y p < cellsCount"
  assume body: "(let minNum = 0; maxNum = 20 in
      if \<not> gameOver g then
        (let randX = fst (Intn rnd (maxNum - minNum)) + minNum;
             rnd1 = snd (Intn rnd (maxNum - minNum));
             randY = fst (Intn rnd1 (maxNum - minNum)) + minNum;
             rnd2 = snd (Intn rnd1 (maxNum - minNum));
             newPoint = \<lparr>X = randX, Y = randY\<rparr>;
             check = (if IsSnake (snake g) newPoint then False else True)
         in if check then Some (g\<lparr>food := newPoint\<rparr>, rnd2)
            else f rnd2 g)
      else f rnd g) = Some y"
  let ?p = "\<lparr>X = int (shd rnd) mod 20, Y = int (shd (stl rnd)) mod 20\<rparr>"
  show "\<exists>p. fst y = g\<lparr>food := p\<rparr> \<and> \<not> IsSnake (snake g) p \<and>
          0 \<le> X p \<and> X p < cellsCount \<and> 0 \<le> Y p \<and> Y p < cellsCount"
  proof (cases "gameOver g")
    case True
    with body have "f rnd g = Some y" by simp
    then show ?thesis by (rule IH)
  next
    case False
    show ?thesis
    proof (cases "IsSnake (snake g) ?p")
      case True
      with body \<open>\<not> gameOver g\<close> have "f (stl (stl rnd)) g = Some y"
        by (simp add: Let_def Intn_def)
      then show ?thesis by (rule IH)
    next
      case free: False
      with body \<open>\<not> gameOver g\<close> have "y = (g\<lparr>food := ?p\<rparr>, stl (stl rnd))"
        by (simp add: Let_def Intn_def)
      with free show ?thesis
        by (auto simp: cellsCount_def)
    qed
  qed
qed

subsection \<open>The parts of an iteration\<close>

lemma Exec_neq:
  "d \<in> {up, right, down, left} \<Longrightarrow> Exec d p \<noteq> p"
proof
  assume d: "d \<in> {up, right, down, left}" and eq: "Exec d p = p"
  from eq have "X (Exec d p) = X p" "Y (Exec d p) = Y p" by simp_all
  with d show False
    by (auto simp: Exec_def dir_defs split: if_splits)
qed

lemma cutStep_eq:
  "cutStep g p =
     (if p \<in> set (Parts (snake g)) then
        (if Size (snake g) = 0 then Inl DivideByZero
         else Inr (g\<lparr>snake := (snake g)\<lparr>Parts := takeWhile (\<lambda>q. q \<noteq> p) (Parts (snake g)),
                                       Size := int (length (takeWhile (\<lambda>q. q \<noteq> p) (Parts (snake g))))\<rparr>,
                     score := (score g sdiv Size (snake g)) *
                              int (length (takeWhile (\<lambda>q. q \<noteq> p) (Parts (snake g)))),
                     needUpdateInfo := True\<rparr>))
      else Inr g)"
  by (simp add: cutStep_def CutIfSnake_eq quo_def Let_def)

lemma cutStep_Inr:
  assumes "cutStep g p = Inr g2"
  shows "gameOver g2 = gameOver g" "food g2 = food g" "speed g2 = speed g"
    "ateFood g2 = ateFood g" "Direction (snake g2) = Direction (snake g)"
    "Parts (snake g2) = takeWhile (\<lambda>q. q \<noteq> p) (Parts (snake g))"
    "p \<notin> set (Parts (snake g)) \<Longrightarrow> g2 = g"
proof -
  have tw: "takeWhile (\<lambda>q. q \<noteq> p) xs = xs" if "p \<notin> set xs" for xs :: "Point list"
    using that by (induction xs) auto
  show "gameOver g2 = gameOver g" "food g2 = food g" "speed g2 = speed g"
    "ateFood g2 = ateFood g" "Direction (snake g2) = Direction (snake g)"
    "Parts (snake g2) = takeWhile (\<lambda>q. q \<noteq> p) (Parts (snake g))"
    using assms by (auto simp: cutStep_eq tw split: if_splits)
  show "g2 = g" if "p \<notin> set (Parts (snake g))"
    using assms that by (simp add: cutStep_eq)
qed


lemma moveStep_eq:
  "Parts (snake g) \<noteq> [] \<Longrightarrow>
   moveStep g =
     (if \<not> gameOver g then
        Inr (g\<lparr>snake := (snake g)\<lparr>Parts := Exec (Direction (snake g)) (hd (Parts (snake g))) #
                                             butlast (Parts (snake g))\<rparr>,
               needMove := True\<rparr>)
      else Inr g)"
  by (simp add: moveStep_def Move_eq)

lemma moveStep_Inr:
  assumes "moveStep g = Inr g3"
  shows "gameOver g3 = gameOver g" "food g3 = food g" "speed g3 = speed g" "score g3 = score g"
    "ateFood g3 = ateFood g" "Direction (snake g3) = Direction (snake g)"
    "Size (snake g3) = Size (snake g)"
    "length (Parts (snake g3)) = length (Parts (snake g))"
proof -
  have "g3 = g \<or> (Parts (snake g) \<noteq> [] \<and>
      g3 = g\<lparr>snake := (snake g)\<lparr>Parts := Exec (Direction (snake g)) (hd (Parts (snake g))) #
                                             butlast (Parts (snake g))\<rparr>,
               needMove := True\<rparr>)"
  proof (cases "Parts (snake g) = []")
    case True
    with assms show ?thesis by (simp add: moveStep_def Move_def split: if_splits)
  next
    case False
    with assms show ?thesis by (simp add: moveStep_eq split: if_splits)
  qed
  then show "gameOver g3 = gameOver g" "food g3 = food g" "speed g3 = speed g" "score g3 = score g"
    "ateFood g3 = ateFood g" "Direction (snake g3) = Direction (snake g)"
    "Size (snake g3) = Size (snake g)"
    "length (Parts (snake g3)) = length (Parts (snake g))"
    by auto
qed

lemma calculateScore_eq:
  "calculateScore g pos =
     (if speed g = 0 then Inl DivideByZero
      else Inr ((1000 sdiv speed g) * (if IsCorner pos then 4 else if IsEdge pos then 2 else 1)))"
  by (simp add: calculateScore_def quo_def)

lemma eatStep_eq:
  assumes "foodGeneration rnd (g\<lparr>snake := Add (snake g) p\<rparr>) = Some (g1, rnd')"
  shows "eatStep rnd g p =
     (if speed g - 5 = 0 then Some (Inl DivideByZero)
      else Some (Inr (g\<lparr>snake := (snake g)\<lparr>Parts := p # Parts (snake g), Size := Size (snake g) + 1\<rparr>,
                        food := food g1, ateFood := ateFood g + 1, speed := speed g - 5,
                        score := score g + (1000 sdiv (speed g - 5)) *
                          (if IsCorner p then 4 else if IsEdge p then 2 else 1),
                        needUpdateInfo := True\<rparr>, rnd')))"
proof -
  from foodGeneration_sound [OF assms] obtain q where
    g1: "g1 = g\<lparr>snake := Add (snake g) p, food := q\<rparr>"
    by auto
  show ?thesis
    unfolding eatStep_def assms
    by (simp add: g1 Let_def calculateScore_eq Add_def)
qed

lemma eatStep_Inr:
  assumes "eatStep rnd g p = Some (Inr (g', rnd'))"
  shows "gameOver g' = gameOver g" "speed g' = speed g - 5" "speed g - 5 \<noteq> 0"
    "ateFood g' = ateFood g + 1" "Direction (snake g') = Direction (snake g)"
    "Size (snake g') = Size (snake g) + 1" "Parts (snake g') = p # Parts (snake g)"
    "score g' = score g + (1000 sdiv (speed g - 5)) *
        (if IsCorner p then 4 else if IsEdge p then 2 else 1)"
    "\<not> IsSnake (snake g') (food g')"
proof -
  from assms obtain r where "foodGeneration rnd (g\<lparr>snake := Add (snake g) p\<rparr>) = Some r"
    by (cases "foodGeneration rnd (g\<lparr>snake := Add (snake g) p\<rparr>)") (simp_all add: eatStep_def)
  then obtain g1 rnd1 where
    fg: "foodGeneration rnd (g\<lparr>snake := Add (snake g) p\<rparr>) = Some (g1, rnd1)"
    by (cases r) auto
  from foodGeneration_sound [OF fg] have q: "\<not> IsSnake (Add (snake g) p) (food g1)"
    by auto
  have g': "speed g - 5 \<noteq> 0 \<and>
    g' = g\<lparr>snake := (snake g)\<lparr>Parts := p # Parts (snake g), Size := Size (snake g) + 1\<rparr>,
                        food := food g1, ateFood := ateFood g + 1, speed := speed g - 5,
                        score := score g + (1000 sdiv (speed g - 5)) *
                          (if IsCorner p then 4 else if IsEdge p then 2 else 1),
                        needUpdateInfo := True\<rparr>"
    using assms unfolding eatStep_eq [OF fg] by (simp split: if_splits)
  then show "speed g - 5 \<noteq> 0" by simp
  from g' show "gameOver g' = gameOver g" "speed g' = speed g - 5"
    "ateFood g' = ateFood g + 1" "Direction (snake g') = Direction (snake g)"
    "Size (snake g') = Size (snake g) + 1" "Parts (snake g') = p # Parts (snake g)"
    "score g' = score g + (1000 sdiv (speed g - 5)) *
        (if IsCorner p then 4 else if IsEdge p then 2 else 1)"
    by simp_all
  from g' q show "\<not> IsSnake (snake g') (food g')"
    by (simp add: IsSnake_def Add_def)
qed


lemma tick_InrE:
  assumes "tick rnd g = Some (Inr (g', rnd'))"
    and "newPos = Exec (Direction (snake g)) (Parts (snake g) ! 0)"
  obtains g2 where "Parts (snake g) \<noteq> []"
    and "cutStep (if collidesWithWall newPos then g\<lparr>gameOver := True\<rparr> else g) newPos = Inr g2"
    and "(newPos = food g \<and> eatStep rnd g2 newPos = Some (Inr (g', rnd'))) \<or>
         (newPos \<noteq> food g \<and> moveStep g2 = Inr g' \<and> rnd' = rnd)"
proof -
  let ?g1 = "if collidesWithWall newPos then g\<lparr>gameOver := True\<rparr> else g"
  from assms(1) have ne: "Parts (snake g) \<noteq> []"
    by (auto simp: tick_def split: if_splits)
  from assms ne obtain g2 where c: "cutStep ?g1 newPos = Inr g2"
    by (cases "cutStep ?g1 newPos") (auto simp: tick_def Let_def)
  have f: "food g2 = food g"
    using cutStep_Inr(2) [OF c] by (simp split: if_splits)
  have "(newPos = food g \<and> eatStep rnd g2 newPos = Some (Inr (g', rnd'))) \<or>
         (newPos \<noteq> food g \<and> moveStep g2 = Inr g' \<and> rnd' = rnd)"
  proof (cases "newPos = food g")
    case True
    with assms(1) ne c f have "eatStep rnd g2 newPos = Some (Inr (g', rnd'))"
      by (simp add: tick_def Let_def flip: assms(2))
    with True show ?thesis by simp
  next
    case False
    with assms(1) ne c f have "moveStep g2 = Inr g' \<and> rnd' = rnd"
      by (cases "moveStep g2") (simp_all add: tick_def Let_def flip: assms(2))
    with False show ?thesis by simp
  qed
  with ne c that show thesis by blast
qed








lemma foodGeneration_zero:
  "\<lparr>X = 0, Y = 0\<rparr> \<notin> set (Parts (snake g)) \<Longrightarrow>
   foodGeneration (sconst 0) g = Some (g\<lparr>food := \<lparr>X = 0, Y = 0\<rparr>\<rparr>, sconst 0)"
  by (subst foodGeneration.simps) (simp add: Let_def Intn_def IsSnake_def cellsCount_def)

lemma foodGeneration_five:
  "\<lparr>X = 5, Y = 5\<rparr> \<notin> set (Parts (snake g)) \<Longrightarrow>
   foodGeneration (sconst 5) g = Some (g\<lparr>food := \<lparr>X = 5, Y = 5\<rparr>\<rparr>, sconst 5)"
  by (subst foodGeneration.simps) (simp add: Let_def Intn_def IsSnake_def cellsCount_def)

lemma tick_eat_returns:
  assumes "Parts (snake g) \<noteq> []"
    and "newPos = Exec (Direction (snake g)) (Parts (snake g) ! 0)"
    and "newPos = food g" and "newPos \<notin> set (Parts (snake g))"
    and "speed g \<noteq> 5"
    and "\<not> IsSnake (Add (snake g) newPos)
           \<lparr>X = int (shd (sdrop (2 * k) rnd)) mod cellsCount,
            Y = int (shd (stl (sdrop (2 * k) rnd))) mod cellsCount\<rparr>"
  shows "\<exists>g' rnd'. tick rnd g = Some (Inr (g', rnd'))"
proof -
  let ?g1 = "if collidesWithWall newPos then g\<lparr>gameOver := True\<rparr> else g"
  have cut: "cutStep ?g1 newPos = Inr ?g1"
    using assms(4) by (simp add: cutStep_eq)
  have "\<exists>r. foodGeneration rnd (?g1\<lparr>snake := Add (snake ?g1) newPos\<rparr>) = Some r"
    using assms(6) by (intro foodGeneration_returns [where k = k]) simp
  then obtain g1 rnd' where
    fg: "foodGeneration rnd (?g1\<lparr>snake := Add (snake ?g1) newPos\<rparr>) = Some (g1, rnd')"
    by auto
  have sp: "speed ?g1 - 5 \<noteq> 0" using assms(5) by simp
  from eatStep_eq [OF fg] sp obtain g' where
    "eatStep rnd ?g1 newPos = Some (Inr (g', rnd'))"
    by (simp split: if_splits)
  moreover have "food ?g1 = newPos" using assms(3) by simp
  ultimately have "tick rnd g = Some (Inr (g', rnd'))"
    using assms(1) cut by (simp add: tick_def Let_def flip: assms(2))
  then show ?thesis by blast
qed

lemma tick_eat_panics_at_speed_5:
  assumes "Parts (snake g) \<noteq> []"
    and "newPos = Exec (Direction (snake g)) (Parts (snake g) ! 0)"
    and "newPos = food g" and "newPos \<notin> set (Parts (snake g))"
    and "speed g = 5"
    and "\<lparr>X = 0, Y = 0\<rparr> \<notin> set (newPos # Parts (snake g))"
  shows "tick (sconst 0) g = Some (Inl DivideByZero)"
proof -
  let ?g1 = "if collidesWithWall newPos then g\<lparr>gameOver := True\<rparr> else g"
  have cut: "cutStep ?g1 newPos = Inr ?g1"
    using assms(4) by (simp add: cutStep_eq)
  have fg: "foodGeneration (sconst 0) (?g1\<lparr>snake := Add (snake ?g1) newPos\<rparr>) =
      Some (?g1\<lparr>snake := Add (snake ?g1) newPos, food := \<lparr>X = 0, Y = 0\<rparr>\<rparr>, sconst 0)"
    using assms(6) by (intro foodGeneration_zero) (simp add: Add_def)
  have "eatStep (sconst 0) ?g1 newPos = Some (Inl DivideByZero)"
    unfolding eatStep_eq [OF fg] using assms(5) by simp
  moreover have "food ?g1 = newPos" using assms(3) by simp
  ultimately show ?thesis
    using assms(1) cut by (simp add: tick_def Let_def flip: assms(2))
qed

subsection \<open>Iterations on the example states\<close>

lemma tick_wallGame:
  "tick (sconst 0) wallGame = Some (Inr (wallGame\<lparr>gameOver := True\<rparr>, sconst 0))"
  by (simp add: tick_def wallGame_def Exec_def dir_defs collidesWithWall_def cellsCount_def
      cutStep_eq moveStep_eq Let_def)

lemma tick_loopGame:
  "tick (sconst 0) loopGame = Some (Inr (loopGame_after, sconst 0))"
  by (simp add: tick_def loopGame_def loopGame_after_def loopSnake_def Exec_def dir_defs
      collidesWithWall_def cellsCount_def cutStep_eq moveStep_eq Let_def signed_divide_int_def)

lemma foodGeneration_NewGame:
  "foodGeneration (3 ## 1 ## 7 ## 5 ## sconst 0) NewGame =
     Some (NewGame\<lparr>food := \<lparr>X = 7, Y = 5\<rparr>\<rparr>, sconst 0)"
  apply (subst foodGeneration.simps)
  apply (subst foodGeneration.simps)
  apply (simp add: Let_def Intn_def IsSnake_def NewGame_def Reset_eq cellsCount_def)
  done

lemma modules_FoodGeneration_NewGame:
  "modules_FoodGeneration (3 ## 1 ## 7 ## 5 ## sconst 0) NewGame =
     Some (NewGame\<lparr>food := \<lparr>X = 7, Y = 5\<rparr>\<rparr>, sconst 0)"
  apply (subst modules_FoodGeneration.simps)
  apply (subst modules_FoodGeneration.simps)
  apply (simp add: Let_def Intn_def IsSnake_def NewGame_def Reset_eq cellsCount_def)
  done

lemma tick_biteGame:
  "tick (sconst 0) biteGame = Some (Inr (biteGame_after, sconst 0))"
  by (simp add: tick_def biteGame_def biteGame_after_def Exec_def dir_defs
      collidesWithWall_def cellsCount_def cutStep_eq moveStep_eq Let_def signed_divide_int_def)

lemma tick_rowGame:
  "tick (sconst 0) rowGame = Some (Inr (rowGame_after, sconst 0))"
proof -
  have fg: "foodGeneration (sconst 0)
      (rowGame\<lparr>snake := Add (snake rowGame) \<lparr>X = 13, Y = 1\<rparr>\<rparr>) =
    Some (rowGame\<lparr>snake := Add (snake rowGame) \<lparr>X = 13, Y = 1\<rparr>, food := \<lparr>X = 0, Y = 0\<rparr>\<rparr>,
          sconst 0)"
    by (rule foodGeneration_zero) (simp add: rowGame_def Add_def)
  have eat: "eatStep (sconst 0) rowGame \<lparr>X = 13, Y = 1\<rparr> = Some (Inr (rowGame_after, sconst 0))"
    unfolding eatStep_eq [OF fg]
    by (simp add: rowGame_def rowGame_after_def IsCorner_def IsEdge_def cellsCount_def
        signed_divide_int_def)
  have cut: "cutStep rowGame \<lparr>X = 13, Y = 1\<rparr> = Inr rowGame"
    by (simp add: cutStep_eq rowGame_def)
  have pos: "Exec (Direction (snake rowGame)) (Parts (snake rowGame) ! 0) = \<lparr>X = 13, Y = 1\<rparr>"
    "\<not> collidesWithWall \<lparr>X = 13, Y = 1\<rparr>" "Parts (snake rowGame) \<noteq> []"
    "food rowGame = \<lparr>X = 13, Y = 1\<rparr>"
    by (simp_all add: rowGame_def Exec_def dir_defs collidesWithWall_def cellsCount_def)
  show ?thesis
    by (simp add: tick_def pos cut eat Let_def)
qed

lemma tick_edgeGame:
  "tick (sconst 5) edgeGame = Some (Inr (edgeGame_after, sconst 5))"
proof -
  have fg: "foodGeneration (sconst 5)
      (edgeGame\<lparr>snake := Add (snake edgeGame) \<lparr>X = 4, Y = 0\<rparr>\<rparr>) =
    Some (edgeGame\<lparr>snake := Add (snake edgeGame) \<lparr>X = 4, Y = 0\<rparr>, food := \<lparr>X = 5, Y = 5\<rparr>\<rparr>,
          sconst 5)"
    by (rule foodGeneration_five) (simp add: edgeGame_def Add_def)
  have eat: "eatStep (sconst 5) edgeGame \<lparr>X = 4, Y = 0\<rparr> = Some (Inr (edgeGame_after, sconst 5))"
    unfolding eatStep_eq [OF fg]
    by (simp add: edgeGame_def edgeGame_after_def IsCorner_def IsEdge_def cellsCount_def
        signed_divide_int_def)
  have cut: "cutStep edgeGame \<lparr>X = 4, Y = 0\<rparr> = Inr edgeGame"
    by (simp add: cutStep_eq edgeGame_def)
  have pos: "Exec (Direction (snake edgeGame)) (Parts (snake edgeGame) ! 0) = \<lparr>X = 4, Y = 0\<rparr>"
    "\<not> collidesWithWall \<lparr>X = 4, Y = 0\<rparr>" "Parts (snake edgeGame) \<noteq> []"
    "food edgeGame = \<lparr>X = 4, Y = 0\<rparr>"
    by (simp_all add: edgeGame_def Exec_def dir_defs collidesWithWall_def cellsCount_def)
  show ?thesis
    by (simp add: tick_def pos cut eat Let_def)
qed

lemma tick_cornerGame:
  "tick (sconst 5) cornerGame = Some (Inr (cornerGame_after, sconst 5))"
proof -
  have fg: "foodGeneration (sconst 5)
      (cornerGame\<lparr>snake := Add (snake cornerGame) \<lparr>X = 0, Y = 0\<rparr>\<rparr>) =
    Some (cornerGame\<lparr>snake := Add (snake cornerGame) \<lparr>X = 0, Y = 0\<rparr>, food := \<lparr>X = 5, Y = 5\<rparr>\<rparr>,
          sconst 5)"
    by (rule foodGeneration_five) (simp add: cornerGame_def Add_def)
  have eat: "eatStep (sconst 5) cornerGame \<lparr>X = 0, Y = 0\<rparr> =
      Some (Inr (cornerGame_after, sconst 5))"
    unfolding eatStep_eq [OF fg]
    by (simp add: cornerGame_def cornerGame_after_def IsCorner_def IsEdge_def cellsCount_def
        signed_divide_int_def)
  have cut: "cutStep cornerGame \<lparr>X = 0, Y = 0\<rparr> = Inr cornerGame"
    by (simp add: cutStep_eq cornerGame_def)
  have pos: "Exec (Direction (snake cornerGame)) (Parts (snake cornerGame) ! 0) = \<lparr>X = 0, Y = 0\<rparr>"
    "\<not> collidesWithWall \<lparr>X = 0, Y = 0\<rparr>" "Parts (snake cornerGame) \<noteq> []"
    "food cornerGame = \<lparr>X = 0, Y = 0\<rparr>"
    by (simp_all add: cornerGame_def Exec_def dir_defs collidesWithWall_def cellsCount_def)
  show ?thesis
    by (simp add: tick_def pos cut eat Let_def)
qed

lemma tick_startRow:
  assumes "3 \<le> x" and "x < 19"
  shows "tick rnd (startRow x) = Some (Inr (startRow (x + 1), rnd))"
  using assms
  by (simp add: tick_def startRow_def Exec_def dir_defs collidesWithWall_def cellsCount_def
      cutStep_eq moveStep_eq Let_def)

lemma tick_NewGame:
  "tick rnd NewGame = Some (Inr (startRow 4, rnd))"
  by (simp add: tick_def NewGame_def NewSnake_def Reset_eq startSpeed_def startRow_def Exec_def dir_defs
      collidesWithWall_def cellsCount_def cutStep_eq moveStep_eq Let_def)

lemma restartStmt_all:
  "restartStmt 12 (restartStmt 11 (restartStmt 10 (restartStmt 9 (restartStmt 8 (restartStmt 7
     (restartStmt 6 (restartStmt 5 (restartStmt 4 (restartStmt 3 (restartStmt 2 (restartStmt 1
     (restartStmt 0 g)))))))))))) = (restartGame g)\<lparr>gameOver := False\<rparr>"
  by (simp add: restartStmt_def restartGame_def Reset_eq)

lemma running_NewGame: "running Idle NewGame"
proof -
  have "foodGeneration (sconst 0) NewGame = Some (NewGame\<lparr>food := \<lparr>X = 0, Y = 0\<rparr>\<rparr>, sconst 0)"
    by (rule foodGeneration_zero) (simp add: NewGame_def Reset_eq)
  moreover have "NewGame\<lparr>food := \<lparr>X = 0, Y = 0\<rparr>\<rparr> = NewGame"
    by (simp add: NewGame_def)
  ultimately have "foodGeneration (sconst 0) NewGame = Some (NewGame, sconst 0)"
    by simp
  from running.generated [OF running.start this] show ?thesis .
qed

lemma running_startRow:
  "running Idle (startRow (4 + int n))" if "n \<le> 15"
  using that
proof (induction n)
  case 0
  from running.ticked [OF running_NewGame tick_NewGame] show ?case by simp
next
  case (Suc n)
  then have r: "running Idle (startRow (4 + int n))" by simp
  have "tick (sconst 0) (startRow (4 + int n)) = Some (Inr (startRow (4 + int n + 1), sconst 0))"
    using Suc.prems by (intro tick_startRow) simp_all
  from running.ticked [OF r this] show ?case by (simp add: add.assoc)
qed

lemma wallGame_startRow: "wallGame = startRow 19"
  by (simp add: wallGame_def startRow_def)

lemma running_wallGame_over: "running Idle (wallGame\<lparr>gameOver := True\<rparr>)"
proof -
  have "running Idle (startRow (4 + int 15))"
    by (rule running_startRow) simp
  then have "running Idle wallGame" by (simp add: wallGame_startRow)
  from running.ticked [OF this tick_wallGame] show ?thesis .
qed

lemma reachable_wallGame_over: "reachable (wallGame\<lparr>gameOver := True\<rparr>)"
  unfolding reachable_def using running_wallGame_over by blast

lemma running_stmt:
  "running (Restart k) g \<Longrightarrow> k < 13 \<Longrightarrow> k' = k + 1 \<Longrightarrow> running (Restart k') (restartStmt k g)"
  using running.stmt by simp


lemma running_restart_whole:
  assumes "running Idle g" and "gameOver g"
  shows "KeyUp code ''Enter'' g = Some ((restartGame g)\<lparr>gameOver := False\<rparr>)"
    and "running Idle ((restartGame g)\<lparr>gameOver := False\<rparr>)"
proof -
  show "KeyUp code ''Enter'' g = Some ((restartGame g)\<lparr>gameOver := False\<rparr>)"
    using assms(2) by (simp add: KeyUp_def)
  let ?g0 = "g"
  let ?g1 = "restartStmt 0 ?g0"
  let ?g2 = "restartStmt 1 ?g1"
  let ?g3 = "restartStmt 2 ?g2"
  let ?g4 = "restartStmt 3 ?g3"
  let ?g5 = "restartStmt 4 ?g4"
  let ?g6 = "restartStmt 5 ?g5"
  let ?g7 = "restartStmt 6 ?g6"
  let ?g8 = "restartStmt 7 ?g7"
  let ?g9 = "restartStmt 8 ?g8"
  let ?g10 = "restartStmt 9 ?g9"
  let ?g11 = "restartStmt 10 ?g10"
  let ?g12 = "restartStmt 11 ?g11"
  let ?g13 = "restartStmt 12 ?g12"
  have r0: "running (Restart 0) ?g0" by (rule running.enter [OF assms])
  have r1: "running (Restart 1) ?g1" by (rule running_stmt [OF r0]) simp_all
  have r2: "running (Restart 2) ?g2" by (rule running_stmt [OF r1]) simp_all
  have r3: "running (Restart 3) ?g3" by (rule running_stmt [OF r2]) simp_all
  have r4: "running (Restart 4) ?g4" by (rule running_stmt [OF r3]) simp_all
  have r5: "running (Restart 5) ?g5" by (rule running_stmt [OF r4]) simp_all
  have r6: "running (Restart 6) ?g6" by (rule running_stmt [OF r5]) simp_all
  have r7: "running (Restart 7) ?g7" by (rule running_stmt [OF r6]) simp_all
  have r8: "running (Restart 8) ?g8" by (rule running_stmt [OF r7]) simp_all
  have r9: "running (Restart 9) ?g9" by (rule running_stmt [OF r8]) simp_all
  have r10: "running (Restart 10) ?g10" by (rule running_stmt [OF r9]) simp_all
  have r11: "running (Restart 11) ?g11" by (rule running_stmt [OF r10]) simp_all
  have r12: "running (Restart 12) ?g12" by (rule running_stmt [OF r11]) simp_all
  have r13: "running (Restart 13) ?g13" by (rule running_stmt [OF r12]) simp_all
  from running.finished [OF r13] show "running Idle ((restartGame g)\<lparr>gameOver := False\<rparr>)"
    by (simp only: restartStmt_all)
qed


subsection \<open>Geometry\<close>

text \<open>
  C7. For every position \<open>p\<close>, \<^verbatim>\<open>Exec\<close> changes exactly one coordinate by exactly one
  (up: \<open>Y + 1\<close>, down: \<open>Y - 1\<close>, left: \<open>X - 1\<close>, right: \<open>X + 1\<close>); when \<open>d'\<close> is the
  opposite of \<open>d\<close> (the pairs \<^verbatim>\<open>CheckParallel\<close> accepts: up and down, left and right),
  \<open>Exec d'\<close> undoes \<open>Exec d\<close>; any other direction value leaves \<open>p\<close> unchanged.
\<close>

theorem Exec_step_and_opposite:
  "Exec up p = \<lparr>X = X p, Y = Y p + 1\<rparr> \<and>
   Exec down p = \<lparr>X = X p, Y = Y p - 1\<rparr> \<and>
   Exec left p = \<lparr>X = X p - 1, Y = Y p\<rparr> \<and>
   Exec right p = \<lparr>X = X p + 1, Y = Y p\<rparr> \<and>
   (CheckParallel d d' \<longrightarrow> d \<in> {up, right, down, left} \<and> Exec d' (Exec d p) = p) \<and>
   (d \<notin> {up, right, down, left} \<longrightarrow> Exec d p = p)"
  by (simp add: Exec_def CheckParallel_def dir_defs)

theorem Exec_step_and_opposite_witness:
  "CheckParallel up down \<and> Exec down (Exec up \<lparr>X = 3, Y = 1\<rparr>) = \<lparr>X = 3, Y = 1\<rparr> \<and>
   CheckParallel left right \<and> Exec right (Exec left \<lparr>X = 3, Y = 1\<rparr>) = \<lparr>X = 3, Y = 1\<rparr> \<and>
   (7::int) \<notin> {up, right, down, left} \<and> Exec 7 \<lparr>X = 3, Y = 1\<rparr> = \<lparr>X = 3, Y = 1\<rparr>"
proof -
  have ud: "CheckParallel up down" and lr: "CheckParallel left right"
    by (simp_all add: CheckParallel_def dir_defs)
  have other: "(7::int) \<notin> {up, right, down, left}"
    by (simp add: dir_defs)
  from ud Exec_step_and_opposite [of "\<lparr>X = 3, Y = 1\<rparr>" up down]
  have 1: "Exec down (Exec up \<lparr>X = 3, Y = 1\<rparr>) = \<lparr>X = 3, Y = 1\<rparr>" by blast
  from lr Exec_step_and_opposite [of "\<lparr>X = 3, Y = 1\<rparr>" left right]
  have 2: "Exec right (Exec left \<lparr>X = 3, Y = 1\<rparr>) = \<lparr>X = 3, Y = 1\<rparr>" by blast
  from other Exec_step_and_opposite [of "\<lparr>X = 3, Y = 1\<rparr>" 7 0]
  have 3: "Exec 7 \<lparr>X = 3, Y = 1\<rparr> = \<lparr>X = 3, Y = 1\<rparr>" by blast
  from ud lr other 1 2 3 show ?thesis by blast
qed

subsection \<open>The snake body\<close>

text \<open>
  C9. \<^verbatim>\<open>Head\<close> returns the first and \<^verbatim>\<open>Tail\<close> the last body cell of a non-empty
  snake; on the empty snake both return the sentinel \<open>(-1, -1)\<close>, which lies outside the
  grid \<open>[0, cellsCount - 1]\<^sup>2\<close> (\<^verbatim>\<open>collidesWithWall\<close> holds of it).
\<close>

theorem Head_Tail_sentinel:
  "(Parts s \<noteq> [] \<longrightarrow> Head s = hd (Parts s) \<and> Tail s = last (Parts s)) \<and>
   (Parts s = [] \<longrightarrow> Head s = \<lparr>X = - 1, Y = - 1\<rparr> \<and> Tail s = \<lparr>X = - 1, Y = - 1\<rparr>) \<and>
   collidesWithWall \<lparr>X = - 1, Y = - 1\<rparr> \<and>
   \<not> (0 \<le> X \<lparr>X = - 1, Y = - 1\<rparr> \<and> X \<lparr>X = - 1, Y = - 1\<rparr> \<le> cellsCount - 1 \<and>
      0 \<le> Y \<lparr>X = - 1, Y = - 1\<rparr> \<and> Y \<lparr>X = - 1, Y = - 1\<rparr> \<le> cellsCount - 1)"
  by (simp add: Head_def Tail_def collidesWithWall_def cellsCount_def hd_conv_nth last_conv_nth)

theorem Head_Tail_sentinel_witness:
  "Parts (Reset NewSnake) \<noteq> [] \<and> Head (Reset NewSnake) = \<lparr>X = 3, Y = 1\<rparr> \<and>
   Tail (Reset NewSnake) = \<lparr>X = 1, Y = 1\<rparr> \<and>
   Parts NewSnake = [] \<and> Head NewSnake = \<lparr>X = - 1, Y = - 1\<rparr> \<and>
   Tail NewSnake = \<lparr>X = - 1, Y = - 1\<rparr>"
  using Head_Tail_sentinel [of "Reset NewSnake"] Head_Tail_sentinel [of NewSnake]
  by (simp add: Reset_eq NewSnake_def)

text \<open>
  C5. If \<open>p\<close> first occurs in the body at index \<open>i\<close> (head first), \<^verbatim>\<open>CutIfSnake\<close>
  truncates the body to its first \<open>i\<close> cells and returns true; if \<open>p\<close> occurs nowhere in
  the body, it returns false and leaves the snake unchanged.
\<close>

theorem CutIfSnake_first_occurrence:
  "(i < length (Parts s) \<and> Parts s ! i = p \<and> (\<forall>j<i. Parts s ! j \<noteq> p) \<longrightarrow>
      CutIfSnake s p = (s\<lparr>Parts := take i (Parts s)\<rparr>, True)) \<and>
   (p \<notin> set (Parts s) \<longrightarrow> CutIfSnake s p = (s, False))"
proof (intro conjI impI)
  assume h: "i < length (Parts s) \<and> Parts s ! i = p \<and> (\<forall>j<i. Parts s ! j \<noteq> p)"
  then have "takeWhile (\<lambda>q. q \<noteq> p) (Parts s) = take i (Parts s)"
    by (intro takeWhile_eq_take_P_nth) auto
  moreover from h have "p \<in> set (Parts s)"
    by (auto simp: in_set_conv_nth)
  ultimately show "CutIfSnake s p = (s\<lparr>Parts := take i (Parts s)\<rparr>, True)"
    by (simp add: CutIfSnake_eq)
next
  assume "p \<notin> set (Parts s)"
  then show "CutIfSnake s p = (s, False)"
    by (simp add: CutIfSnake_eq)
qed

theorem CutIfSnake_first_occurrence_witness:
  "(3::nat) < length (Parts loopSnake) \<and> Parts loopSnake ! 3 = \<lparr>X = 1, Y = 2\<rparr> \<and>
   Parts loopSnake ! 0 \<noteq> \<lparr>X = 1, Y = 2\<rparr> \<and> Parts loopSnake ! 1 \<noteq> \<lparr>X = 1, Y = 2\<rparr> \<and>
   Parts loopSnake ! 2 \<noteq> \<lparr>X = 1, Y = 2\<rparr> \<and>
   CutIfSnake loopSnake \<lparr>X = 1, Y = 2\<rparr> =
     (loopSnake\<lparr>Parts := [\<lparr>X = 2, Y = 2\<rparr>, \<lparr>X = 2, Y = 1\<rparr>, \<lparr>X = 1, Y = 1\<rparr>]\<rparr>, True) \<and>
   \<lparr>X = 0, Y = 0\<rparr> \<notin> set (Parts loopSnake) \<and>
   CutIfSnake loopSnake \<lparr>X = 0, Y = 0\<rparr> = (loopSnake, False)"
proof -
  have a: "(3::nat) < length (Parts loopSnake) \<and> Parts loopSnake ! 3 = \<lparr>X = 1, Y = 2\<rparr> \<and>
    (\<forall>j<3. Parts loopSnake ! j \<noteq> \<lparr>X = 1, Y = 2\<rparr>)"
    by (simp add: loopSnake_def less_Suc_eq numeral_3_eq_3)
  have b: "\<lparr>X = 0, Y = 0\<rparr> \<notin> set (Parts loopSnake)"
    by (simp add: loopSnake_def)
  have c: "take 3 (Parts loopSnake) = [\<lparr>X = 2, Y = 2\<rparr>, \<lparr>X = 2, Y = 1\<rparr>, \<lparr>X = 1, Y = 1\<rparr>]"
    by (simp add: loopSnake_def)
  have d: "Parts loopSnake ! 0 \<noteq> \<lparr>X = 1, Y = 2\<rparr> \<and> Parts loopSnake ! 1 \<noteq> \<lparr>X = 1, Y = 2\<rparr> \<and>
    Parts loopSnake ! 2 \<noteq> \<lparr>X = 1, Y = 2\<rparr>"
    by (simp add: loopSnake_def)
  show ?thesis
    using a b c d CutIfSnake_first_occurrence [of 3 loopSnake "\<lparr>X = 1, Y = 2\<rparr>"]
      CutIfSnake_first_occurrence [of 0 loopSnake "\<lparr>X = 0, Y = 0\<rparr>"]
    by simp
qed

text \<open>
  C6. On a non-empty body \<^verbatim>\<open>Move d\<close> returns without a panic, keeps the length, puts
  \<open>Exec d\<close> of the old head at index 0 and the old cell \<open>i - 1\<close> at every index \<open>i > 0\<close>;
  \<^verbatim>\<open>Add p\<close> makes the body one cell longer with \<open>p\<close> at the head.
\<close>

theorem Move_shifts_Add_grows:
  "(Parts s \<noteq> [] \<longrightarrow>
      (\<exists>s'. Move s d = Inr s' \<and> length (Parts s') = length (Parts s) \<and>
            Parts s' ! 0 = Exec d (Parts s ! 0) \<and>
            (\<forall>i. 0 < i \<and> i < length (Parts s) \<longrightarrow> Parts s' ! i = Parts s ! (i - 1)) \<and>
            Direction s' = Direction s \<and> Size s' = Size s)) \<and>
   length (Parts (Add s p)) = length (Parts s) + 1 \<and>
   Parts (Add s p) = p # Parts s \<and> Head (Add s p) = p"
proof (intro conjI impI)
  assume ne: "Parts s \<noteq> []"
  have shift: "(Exec d (hd (Parts s)) # butlast (Parts s)) ! i = Parts s ! (i - 1)"
    if "0 < i" "i < length (Parts s)" for i
    using that by (cases i) (simp_all add: nth_butlast)
  show "\<exists>s'. Move s d = Inr s' \<and> length (Parts s') = length (Parts s) \<and>
            Parts s' ! 0 = Exec d (Parts s ! 0) \<and>
            (\<forall>i. 0 < i \<and> i < length (Parts s) \<longrightarrow> Parts s' ! i = Parts s ! (i - 1)) \<and>
            Direction s' = Direction s \<and> Size s' = Size s"
    using ne shift by (simp add: Move_eq hd_conv_nth)
qed (simp_all add: Add_def Head_def)

theorem Move_shifts_Add_grows_witness:
  "Parts (Reset NewSnake) \<noteq> [] \<and>
   (\<exists>s'. Move (Reset NewSnake) right = Inr s' \<and> length (Parts s') = 3 \<and>
         Parts s' ! 0 = \<lparr>X = 4, Y = 1\<rparr> \<and> Parts s' ! 1 = \<lparr>X = 3, Y = 1\<rparr> \<and>
         Parts s' ! 2 = \<lparr>X = 2, Y = 1\<rparr>)"
proof -
  have ne: "Parts (Reset NewSnake) \<noteq> []"
    by (simp add: Reset_eq)
  from ne Move_shifts_Add_grows [of "Reset NewSnake" right]
  obtain s' where s': "Move (Reset NewSnake) right = Inr s'"
    "length (Parts s') = length (Parts (Reset NewSnake))"
    "Parts s' ! 0 = Exec right (Parts (Reset NewSnake) ! 0)"
    "\<forall>i. 0 < i \<and> i < length (Parts (Reset NewSnake)) \<longrightarrow>
         Parts s' ! i = Parts (Reset NewSnake) ! (i - 1)"
    by blast
  from s'(4) have "Parts s' ! 1 = Parts (Reset NewSnake) ! 0"
    "Parts s' ! 2 = Parts (Reset NewSnake) ! 1"
    by (simp_all add: Reset_eq)
  with s' ne show ?thesis
    by (simp add: Reset_eq Exec_def dir_defs)
qed

subsection \<open>Food placement\<close>

text \<open>
  C8. Whenever food generation returns, the food it has stored lies in the grid
  \<open>[0, cellsCount - 1]\<^sup>2\<close> and is not a cell of the snake, which the call leaves as it
  was; for \<^verbatim>\<open>foodGeneration\<close> of package game and \<^verbatim>\<open>FoodGeneration\<close> of package
  modules, and for every snake body.
\<close>

theorem foodGeneration_free_cell:
  "(foodGeneration rnd g = Some (g', rnd') \<longrightarrow>
      0 \<le> X (food g') \<and> X (food g') \<le> cellsCount - 1 \<and>
      0 \<le> Y (food g') \<and> Y (food g') \<le> cellsCount - 1 \<and>
      \<not> IsSnake (snake g) (food g') \<and> food g' \<notin> set (Parts (snake g')) \<and>
      snake g' = snake g) \<and>
   (modules_FoodGeneration rnd g = Some (g', rnd') \<longrightarrow>
      0 \<le> X (food g') \<and> X (food g') \<le> cellsCount - 1 \<and>
      0 \<le> Y (food g') \<and> Y (food g') \<le> cellsCount - 1 \<and>
      \<not> IsSnake (snake g) (food g') \<and> food g' \<notin> set (Parts (snake g')) \<and>
      snake g' = snake g)"
proof (rule conjI; rule impI)
  assume "foodGeneration rnd g = Some (g', rnd')"
  from foodGeneration_sound [OF this]
  show "0 \<le> X (food g') \<and> X (food g') \<le> cellsCount - 1 \<and>
      0 \<le> Y (food g') \<and> Y (food g') \<le> cellsCount - 1 \<and>
      \<not> IsSnake (snake g) (food g') \<and> food g' \<notin> set (Parts (snake g')) \<and>
      snake g' = snake g"
    by (auto simp: IsSnake_def)
next
  assume "modules_FoodGeneration rnd g = Some (g', rnd')"
  from modules_FoodGeneration_sound [OF this]
  show "0 \<le> X (food g') \<and> X (food g') \<le> cellsCount - 1 \<and>
      0 \<le> Y (food g') \<and> Y (food g') \<le> cellsCount - 1 \<and>
      \<not> IsSnake (snake g) (food g') \<and> food g' \<notin> set (Parts (snake g')) \<and>
      snake g' = snake g"
    by (auto simp: IsSnake_def)
qed

theorem foodGeneration_free_cell_witness:
  "foodGeneration (3 ## 1 ## 7 ## 5 ## sconst 0) NewGame =
     Some (NewGame\<lparr>food := \<lparr>X = 7, Y = 5\<rparr>\<rparr>, sconst 0) \<and>
   modules_FoodGeneration (3 ## 1 ## 7 ## 5 ## sconst 0) NewGame =
     Some (NewGame\<lparr>food := \<lparr>X = 7, Y = 5\<rparr>\<rparr>, sconst 0) \<and>
   \<lparr>X = 3, Y = 1\<rparr> \<in> set (Parts (snake NewGame)) \<and>
   \<lparr>X = 7, Y = 5\<rparr> \<notin> set (Parts (snake NewGame)) \<and>
   \<not> IsSnake (snake NewGame) (food (NewGame\<lparr>food := \<lparr>X = 7, Y = 5\<rparr>\<rparr>))"
  using foodGeneration_NewGame modules_FoodGeneration_NewGame
    foodGeneration_free_cell [of "3 ## 1 ## 7 ## 5 ## sconst 0" NewGame
      "NewGame\<lparr>food := \<lparr>X = 7, Y = 5\<rparr>\<rparr>" "sconst 0"]
  by (simp add: NewGame_def Reset_eq)

subsection \<open>The game loop\<close>






subsection \<open>Score and restart\<close>

text \<open>
  C1, as the code has it. On an iteration whose prospective head (under a valid direction)
  first meets the body at index \<open>i\<close> and is not the food, with the size counter equal to
  the body length, the iteration completes, \<open>i\<close> is at least 1, the body is left with
  \<open>i\<close> cells, and the score becomes \<open>(score / oldBodyLength) * newBodyLength\<close>: the
  truncating division comes first, the multiplication second.
\<close>

theorem tick_self_bite_rescales_score:
  assumes "newPos = Exec (Direction (snake g)) (Parts (snake g) ! 0)"
    and "Direction (snake g) \<in> {up, right, down, left}"
    and "i < length (Parts (snake g))"
    and "Parts (snake g) ! i = newPos"
    and "\<forall>j<i. Parts (snake g) ! j \<noteq> newPos"
    and "newPos \<noteq> food g"
    and "Size (snake g) = int (length (Parts (snake g)))"
  shows "\<exists>g'. tick rnd g = Some (Inr (g', rnd)) \<and>
           0 < i \<and> length (Parts (snake g')) = i \<and> Size (snake g') = int i \<and>
           score g' = (score g sdiv int (length (Parts (snake g)))) * int i"
proof -
  let ?parts = "Parts (snake g)"
  let ?g1 = "if collidesWithWall newPos then g\<lparr>gameOver := True\<rparr> else g"
  from assms(3) have ne: "?parts \<noteq> []" by auto
  have mem: "newPos \<in> set ?parts"
    using assms(3,4) by (auto simp: in_set_conv_nth)
  have tw: "takeWhile (\<lambda>q. q \<noteq> newPos) ?parts = take i ?parts"
    using assms(3,4,5) by (intro takeWhile_eq_take_P_nth) auto
  have "?parts ! 0 \<noteq> newPos"
    using Exec_neq [OF assms(2)] assms(1) by metis
  with assms(4) have pos: "0 < i" by (cases i) auto
  have sz: "Size (snake g) \<noteq> 0"
    using assms(7) ne by simp
  define g2 where "g2 = ?g1\<lparr>snake := (snake g)\<lparr>Parts := take i ?parts, Size := int i\<rparr>,
      score := (score g sdiv int (length ?parts)) * int i, needUpdateInfo := True\<rparr>"
  have cut: "cutStep ?g1 newPos = Inr g2"
    using mem sz assms(3,7) by (simp add: cutStep_eq tw g2_def min_def)
  have ne2: "Parts (snake g2) \<noteq> []"
    using pos ne by (simp add: g2_def)
  obtain g3 where mv: "moveStep g2 = Inr g3"
    using moveStep_eq [OF ne2] by (cases "gameOver g2") simp_all
  from moveStep_Inr [OF mv] assms(3)
  have g3: "length (Parts (snake g3)) = i" "Size (snake g3) = int i"
    "score g3 = (score g sdiv int (length ?parts)) * int i"
    by (simp_all add: g2_def)
  have fd: "food g2 = food g" by (simp add: g2_def)
  have "tick rnd g = Some (Inr (g3, rnd))"
    using ne cut mv assms(6) fd by (simp add: tick_def Let_def flip: assms(1))
  with pos g3 show ?thesis by blast
qed

theorem tick_self_bite_rescales_score_witness:
  "Direction (snake loopGame) \<in> {up, right, down, left} \<and>
   (3::nat) < length (Parts (snake loopGame)) \<and>
   Parts (snake loopGame) ! 3 = Exec (Direction (snake loopGame)) (Parts (snake loopGame) ! 0) \<and>
   Parts (snake loopGame) ! 0 \<noteq> Exec (Direction (snake loopGame)) (Parts (snake loopGame) ! 0) \<and>
   Parts (snake loopGame) ! 1 \<noteq> Exec (Direction (snake loopGame)) (Parts (snake loopGame) ! 0) \<and>
   Parts (snake loopGame) ! 2 \<noteq> Exec (Direction (snake loopGame)) (Parts (snake loopGame) ! 0) \<and>
   Exec (Direction (snake loopGame)) (Parts (snake loopGame) ! 0) \<noteq> food loopGame \<and>
   Size (snake loopGame) = int (length (Parts (snake loopGame))) \<and>
   tick (sconst 0) loopGame = Some (Inr (loopGame_after, sconst 0)) \<and>
   length (Parts (snake loopGame_after)) = 3 \<and> Size (snake loopGame_after) = 3 \<and>
   score loopGame_after = (score loopGame sdiv 5) * 3"
proof -
  let ?p = "Exec (Direction (snake loopGame)) (Parts (snake loopGame) ! 0)"
  have p: "?p = \<lparr>X = 1, Y = 2\<rparr>"
    by (simp add: loopGame_def loopSnake_def Exec_def dir_defs)
  have h: "Direction (snake loopGame) \<in> {up, right, down, left}"
    "(3::nat) < length (Parts (snake loopGame))"
    "Parts (snake loopGame) ! 3 = ?p"
    "?p \<noteq> food loopGame"
    "Size (snake loopGame) = int (length (Parts (snake loopGame)))"
    unfolding p by (simp_all add: loopGame_def loopSnake_def dir_defs)
  have n: "Parts (snake loopGame) ! 0 \<noteq> ?p" "Parts (snake loopGame) ! 1 \<noteq> ?p"
    "Parts (snake loopGame) ! 2 \<noteq> ?p"
    unfolding p by (simp_all add: loopGame_def loopSnake_def)
  have all: "\<forall>j<3. Parts (snake loopGame) ! j \<noteq> ?p"
    unfolding p by (simp add: loopGame_def loopSnake_def less_Suc_eq numeral_3_eq_3)
  from tick_self_bite_rescales_score [OF refl h(1) h(2) h(3) all h(4) h(5), of "sconst 0"]
  obtain g' where g': "tick (sconst 0) loopGame = Some (Inr (g', sconst 0))"
    "length (Parts (snake g')) = 3" "Size (snake g') = 3"
    "score g' = (score loopGame sdiv int (length (Parts (snake loopGame)))) * 3"
    by auto
  from g'(1) tick_loopGame have eq: "g' = loopGame_after" by simp
  have len: "int (length (Parts (snake loopGame))) = 5"
    by (simp add: loopGame_def loopSnake_def)
  from g' h n show ?thesis unfolding eq len by blast
qed

text \<open>
  C1 as stated, \<open>score * newBodyLength / oldBodyLength\<close>, fails: a five-cell snake with
  score 9 that bites its index 2 is left with 2 cells and score \<open>9 / 5 * 2 = 2\<close>, not
  \<open>9 * 2 / 5 = 3\<close>; the looping snake that bites its index 3 is left with score
  \<open>9 / 5 * 3 = 3\<close>, not \<open>9 * 3 / 5 = 5\<close>.
\<close>

theorem self_bite_score_counterexample:
  "tick (sconst 0) biteGame = Some (Inr (biteGame_after, sconst 0)) \<and>
   length (Parts (snake biteGame)) = 5 \<and> Size (snake biteGame) = 5 \<and>
   Exec (Direction (snake biteGame)) (Parts (snake biteGame) ! 0) = Parts (snake biteGame) ! 2 \<and>
   length (Parts (snake biteGame_after)) = 2 \<and>
   score biteGame = 9 \<and> score biteGame_after = 2 \<and>
   (score biteGame * int (length (Parts (snake biteGame_after)))) sdiv
      int (length (Parts (snake biteGame))) = 3 \<and>
   score biteGame_after \<noteq>
     (score biteGame * int (length (Parts (snake biteGame_after)))) sdiv
       int (length (Parts (snake biteGame))) \<and>
   tick (sconst 0) loopGame = Some (Inr (loopGame_after, sconst 0)) \<and>
   length (Parts (snake loopGame)) = 5 \<and> length (Parts (snake loopGame_after)) = 3 \<and>
   score loopGame = 9 \<and> score loopGame_after = 3 \<and>
   (score loopGame * int (length (Parts (snake loopGame_after)))) sdiv
      int (length (Parts (snake loopGame))) = 5"
  using tick_biteGame tick_loopGame
  by (simp add: biteGame_def biteGame_after_def loopGame_def loopGame_after_def loopSnake_def
      Exec_def dir_defs signed_divide_int_def)

text \<open>
  C2, as the code has it. On an iteration that completes and on which the prospective
  head is the food (the food not being on the body), the speed is lowered by 5 first and
  the score then grows by \<open>1000 / speed'\<close> times 4 (corner), times 2 (edge, not corner) or
  times 1 (interior), where \<open>speed'\<close> is the lowered speed, which is not 0.
\<close>

theorem tick_food_score:
  assumes "tick rnd g = Some (Inr (g', rnd'))"
    and "newPos = Exec (Direction (snake g)) (Parts (snake g) ! 0)"
    and "newPos = food g"
    and "newPos \<notin> set (Parts (snake g))"
  shows "speed g' = speed g - 5 \<and> speed g' \<noteq> 0 \<and> ateFood g' = ateFood g + 1 \<and>
         (IsCorner newPos \<longrightarrow> score g' = score g + 1000 sdiv speed g' * 4) \<and>
         (IsEdge newPos \<and> \<not> IsCorner newPos \<longrightarrow> score g' = score g + 1000 sdiv speed g' * 2) \<and>
         (\<not> IsEdge newPos \<and> \<not> IsCorner newPos \<longrightarrow> score g' = score g + 1000 sdiv speed g')"
proof -
  let ?g1 = "if collidesWithWall newPos then g\<lparr>gameOver := True\<rparr> else g"
  from assms(1,2) obtain g2 where c: "cutStep ?g1 newPos = Inr g2"
    and st: "(newPos = food g \<and> eatStep rnd g2 newPos = Some (Inr (g', rnd'))) \<or>
         (newPos \<noteq> food g \<and> moveStep g2 = Inr g' \<and> rnd' = rnd)"
    by (rule tick_InrE)
  from assms(4) have "newPos \<notin> set (Parts (snake ?g1))" by simp
  from cutStep_Inr(7) [OF c this] have g2: "g2 = ?g1" .
  from st assms(3) have e: "eatStep rnd g2 newPos = Some (Inr (g', rnd'))" by simp
  have sp: "speed g2 = speed g" and sc: "score g2 = score g" and af: "ateFood g2 = ateFood g"
    unfolding g2 by simp_all
  from eatStep_Inr(2,3,4,8) [OF e]
  have r: "speed g' = speed g - 5" "speed g - 5 \<noteq> 0" "ateFood g' = ateFood g + 1"
    "score g' = score g + (1000 sdiv (speed g - 5)) *
        (if IsCorner newPos then 4 else if IsEdge newPos then 2 else 1)"
    unfolding sp sc af by simp_all
  then show ?thesis by simp
qed

theorem tick_food_score_witness:
  "tick (sconst 0) rowGame = Some (Inr (rowGame_after, sconst 0)) \<and>
   food rowGame = Exec (Direction (snake rowGame)) (Parts (snake rowGame) ! 0) \<and>
   food rowGame \<notin> set (Parts (snake rowGame)) \<and>
   \<not> IsEdge (food rowGame) \<and> \<not> IsCorner (food rowGame) \<and>
   speed rowGame_after = speed rowGame - 5 \<and> speed rowGame_after \<noteq> 0 \<and>
   score rowGame_after = score rowGame + 1000 sdiv speed rowGame_after \<and>
   tick (sconst 5) edgeGame = Some (Inr (edgeGame_after, sconst 5)) \<and>
   food edgeGame = Exec (Direction (snake edgeGame)) (Parts (snake edgeGame) ! 0) \<and>
   food edgeGame \<notin> set (Parts (snake edgeGame)) \<and>
   IsEdge (food edgeGame) \<and> \<not> IsCorner (food edgeGame) \<and>
   score edgeGame_after = score edgeGame + 1000 sdiv speed edgeGame_after * 2 \<and>
   tick (sconst 5) cornerGame = Some (Inr (cornerGame_after, sconst 5)) \<and>
   food cornerGame = Exec (Direction (snake cornerGame)) (Parts (snake cornerGame) ! 0) \<and>
   food cornerGame \<notin> set (Parts (snake cornerGame)) \<and>
   IsCorner (food cornerGame) \<and>
   score cornerGame_after = score cornerGame + 1000 sdiv speed cornerGame_after * 4"
proof -
  have r: "food rowGame = Exec (Direction (snake rowGame)) (Parts (snake rowGame) ! 0)"
    "food rowGame \<notin> set (Parts (snake rowGame))"
    "\<not> IsEdge (food rowGame)" "\<not> IsCorner (food rowGame)"
    by (simp_all add: rowGame_def Exec_def dir_defs IsEdge_def IsCorner_def cellsCount_def)
  have e: "food edgeGame = Exec (Direction (snake edgeGame)) (Parts (snake edgeGame) ! 0)"
    "food edgeGame \<notin> set (Parts (snake edgeGame))"
    "IsEdge (food edgeGame)" "\<not> IsCorner (food edgeGame)"
    by (simp_all add: edgeGame_def Exec_def dir_defs IsEdge_def IsCorner_def cellsCount_def)
  have c: "food cornerGame = Exec (Direction (snake cornerGame)) (Parts (snake cornerGame) ! 0)"
    "food cornerGame \<notin> set (Parts (snake cornerGame))"
    "IsCorner (food cornerGame)"
    by (simp_all add: cornerGame_def Exec_def dir_defs IsEdge_def IsCorner_def cellsCount_def)
  from tick_food_score [OF tick_rowGame refl r(1) [symmetric]] r
  have 1: "speed rowGame_after = speed rowGame - 5 \<and> speed rowGame_after \<noteq> 0 \<and>
      score rowGame_after = score rowGame + 1000 sdiv speed rowGame_after"
    by simp
  from tick_food_score [OF tick_edgeGame refl e(1) [symmetric]] e
  have 2: "score edgeGame_after = score edgeGame + 1000 sdiv speed edgeGame_after * 2"
    by simp
  from tick_food_score [OF tick_cornerGame refl c(1) [symmetric]] c
  have 3: "score cornerGame_after = score cornerGame + 1000 sdiv speed cornerGame_after * 4"
    by simp
  from 1 2 3 r e c tick_rowGame tick_edgeGame tick_cornerGame show ?thesis by blast
qed

text \<open>
  C2 as stated, with the speed in effect when the food is reached, fails: at speed 255
  an interior food adds \<open>1000 / 250 = 4\<close> to the score, not \<open>1000 / 255 = 3\<close>.
\<close>

theorem food_score_counterexample:
  "tick (sconst 0) rowGame = Some (Inr (rowGame_after, sconst 0)) \<and>
   Exec (Direction (snake rowGame)) (Parts (snake rowGame) ! 0) = food rowGame \<and>
   \<not> IsCorner (food rowGame) \<and> \<not> IsEdge (food rowGame) \<and>
   speed rowGame = 255 \<and> 1000 sdiv speed rowGame = 3 \<and>
   score rowGame_after - score rowGame = 4 \<and>
   score rowGame_after \<noteq> score rowGame + 1000 sdiv speed rowGame \<and>
   speed rowGame_after = 250 \<and> 1000 sdiv speed rowGame_after = 4"
  using tick_rowGame
  by (simp add: rowGame_def rowGame_after_def Exec_def dir_defs IsCorner_def IsEdge_def
      cellsCount_def signed_divide_int_def)

text \<open>
  C3 on the code. \<^verbatim>\<open>Reset\<close> puts the three start cells on row 1 and the direction
  right, and adds 3 to the size counter without clearing it: the counter is 3 at the
  first start only. The snake that ran into the right wall without a key pressed (a state
  of a run, size counter 3) comes back from the restart key with three cells, score 0,
  no food eaten, speed 300, the game running, and size counter 6.
\<close>

theorem restart_adds_to_Size:
  "Reset s = \<lparr>Direction = right, Parts = [\<lparr>X = 3, Y = 1\<rparr>, \<lparr>X = 2, Y = 1\<rparr>, \<lparr>X = 1, Y = 1\<rparr>],
              Size = Size s + 3\<rparr> \<and>
   snake NewGame = \<lparr>Direction = right, Parts = [\<lparr>X = 3, Y = 1\<rparr>, \<lparr>X = 2, Y = 1\<rparr>, \<lparr>X = 1, Y = 1\<rparr>],
                    Size = 3\<rparr> \<and>
   reachable (wallGame\<lparr>gameOver := True\<rparr>) \<and>
   KeyUp 40 ''Enter'' (wallGame\<lparr>gameOver := True\<rparr>) =
     Some \<lparr>speed = 300,
           snake = \<lparr>Direction = right, Parts = [\<lparr>X = 3, Y = 1\<rparr>, \<lparr>X = 2, Y = 1\<rparr>, \<lparr>X = 1, Y = 1\<rparr>],
                    Size = 6\<rparr>,
           food = \<lparr>X = 0, Y = 0\<rparr>, score = 0, ateFood = 0, gameOver = False, needMove = True,
           needUpdateInfo = False\<rparr>"
  using reachable_wallGame_over
  by (simp add: Reset_eq NewGame_def NewSnake_def KeyUp_def restartGame_def wallGame_def)

end
